theory Spec2Isabelle
  imports Complex_Main "HOL-Library.Word"
begin

unbundle bit_operations_syntax

section \<open>Data model\<close>

text \<open>
  A Go \<open>byte\<close> is an 8-bit word, a \<open>[]byte\<close> a list of them (a nil slice and an empty
  slice are both the empty list: the code only ever takes their length). A Go \<open>string\<close> is
  a sequence of bytes, which is what \<open>string\<close> (a list of 8-bit characters) is here.
\<close>

type_synonym u8 = "8 word"

text \<open>
  The values stored in the \<open>map[string]any\<close> that the decoders return, by dynamic type:
  \<open>string\<close>, \<open>int64\<close> (the timestamp), \<open>int\<close> and \<open>float64\<close>. The only floating
  point values the decoders produce are quotients \<open>float64(v) / 10.0\<close> of a 16-bit integer
  by ten, that is the double nearest to the rational \<open>v / 10\<close>; the model carries that
  rational.
\<close>

datatype val = VString string | VInt64 int | VInt int | VFloat64 rat

type_synonym outmap = "string \<rightharpoonup> val"

text \<open>
  A function returning \<open>(map[string]any, error)\<close> returns a pair; \<open>nil\<close> is \<open>None\<close> in
  both components, and an error is the text it carries.
\<close>

type_synonym decoded = "outmap option \<times> string option"

section \<open>Library functions the code calls\<close>

subsection \<open>Formatting verbs of \<open>fmt\<close>\<close>

definition hexDigitUpper :: "nat \<Rightarrow> char" where
  "hexDigitUpper n = ''0123456789ABCDEF'' ! (n mod 16)"

text \<open>\<open>%02X\<close> of a byte: two uppercase hexadecimal digits, high nibble first.\<close>

definition fmt_02X :: "u8 \<Rightarrow> string" where
  "fmt_02X b = [hexDigitUpper (unat (drop_bit 4 b)), hexDigitUpper (unat (b AND 15))]"

definition decDigit :: "nat \<Rightarrow> char" where
  "decDigit n = ''0123456789'' ! (n mod 10)"

fun decimal :: "nat \<Rightarrow> string" where
  "decimal n = (if n < 10 then [decDigit n] else decimal (n div 10) @ [decDigit (n mod 10)])"

declare decimal.simps [simp del]

text \<open>\<open>%d\<close> of an \<open>int\<close>: a minus sign for a negative value, then the decimal digits.\<close>

definition fmt_d :: "int \<Rightarrow> string" where
  "fmt_d v = (if v < 0 then CHR ''-'' # decimal (nat (- v)) else decimal (nat v))"

fun binary :: "nat \<Rightarrow> string" where
  "binary n = (if n < 2 then [decDigit n] else binary (n div 2) @ [decDigit (n mod 2)])"

declare binary.simps [simp del]

text \<open>\<open>%08b\<close> of a non-negative \<open>int\<close>: the binary digits, padded with zeros on the left
  to a width of 8. (The decoders only format values of a byte.)\<close>

definition fmt_08b :: "int \<Rightarrow> string" where
  "fmt_08b v = (let ds = binary (nat v) in replicate (8 - length ds) CHR ''0'' @ ds)"

subsection \<open>\<open>strings.ToUpper\<close>, \<open>strings.TrimSpace\<close>\<close>

text \<open>
  \<open>strings.ToUpper\<close> on the bytes of an ASCII string: the letters \<open>a\<close> to \<open>z\<close> become
  \<open>A\<close> to \<open>Z\<close>. Bytes from \<open>0x80\<close> on are left as they are (Go maps the runes they
  encode through the Unicode case tables, which are not modelled).
\<close>

definition toUpperByte :: "char \<Rightarrow> char" where
  "toUpperByte c = (let n = (of_char c :: nat) in if 97 \<le> n \<and> n \<le> 122 then char_of (n - 32) else c)"

definition strings_ToUpper :: "string \<Rightarrow> string" where
  "strings_ToUpper s = map toUpperByte s"

text \<open>
  \<open>strings.TrimSpace\<close> removes the leading and the trailing runes that are Unicode white
  space. These are the six ASCII characters tab, line feed, vertical tab, form feed,
  carriage return and space, and the runes U+0085, U+00A0, U+1680, U+2000 to U+200A,
  U+2028, U+2029, U+202F, U+205F and U+3000, listed below in their UTF-8 encoding.
\<close>

definition spaceRunes :: "string list" where
  "spaceRunes =
    [[CHR 0x09], [CHR 0x0A], [CHR 0x0B], [CHR 0x0C], [CHR 0x0D], [CHR 0x20],
     [CHR 0xC2, CHR 0x85], [CHR 0xC2, CHR 0xA0], [CHR 0xE1, CHR 0x9A, CHR 0x80],
     [CHR 0xE2, CHR 0x80, CHR 0x80], [CHR 0xE2, CHR 0x80, CHR 0x81],
     [CHR 0xE2, CHR 0x80, CHR 0x82], [CHR 0xE2, CHR 0x80, CHR 0x83],
     [CHR 0xE2, CHR 0x80, CHR 0x84], [CHR 0xE2, CHR 0x80, CHR 0x85],
     [CHR 0xE2, CHR 0x80, CHR 0x86], [CHR 0xE2, CHR 0x80, CHR 0x87],
     [CHR 0xE2, CHR 0x80, CHR 0x88], [CHR 0xE2, CHR 0x80, CHR 0x89],
     [CHR 0xE2, CHR 0x80, CHR 0x8A], [CHR 0xE2, CHR 0x80, CHR 0xA8],
     [CHR 0xE2, CHR 0x80, CHR 0xA9], [CHR 0xE2, CHR 0x80, CHR 0xAF],
     [CHR 0xE2, CHR 0x81, CHR 0x9F], [CHR 0xE3, CHR 0x80, CHR 0x80]]"

text \<open>The number of bytes of the white-space rune that \<open>s\<close> starts with, 0 if there is none.\<close>

definition leadingSpace :: "string \<Rightarrow> nat" where
  "leadingSpace s = (case filter (\<lambda>r. take (length r) s = r) spaceRunes of [] \<Rightarrow> 0 | r # _ \<Rightarrow> length r)"

text \<open>The same for the rune that \<open>s\<close> ends with.\<close>

definition trailingSpace :: "string \<Rightarrow> nat" where
  "trailingSpace s =
     (case filter (\<lambda>r. length r \<le> length s \<and> drop (length s - length r) s = r) spaceRunes of
        [] \<Rightarrow> 0 | r # _ \<Rightarrow> length r)"

function trimLeft :: "string \<Rightarrow> string" where
  "trimLeft s = (if leadingSpace s = 0 \<or> s = [] then s else trimLeft (drop (leadingSpace s) s))"
  by pat_completeness auto
termination
  by (relation "measure length") auto

declare trimLeft.simps [simp del]

function trimRight :: "string \<Rightarrow> string" where
  "trimRight s =
     (if trailingSpace s = 0 \<or> s = [] then s else trimRight (take (length s - trailingSpace s) s))"
  by pat_completeness auto
termination
  by (relation "measure length") auto

declare trimRight.simps [simp del]

definition strings_TrimSpace :: "string \<Rightarrow> string" where
  "strings_TrimSpace s = trimRight (trimLeft s)"

subsection \<open>\<open>hex.DecodeString\<close>\<close>

definition fromHexChar :: "char \<Rightarrow> u8 option" where
  "fromHexChar c =
     (let n = (of_char c :: nat) in
      if 48 \<le> n \<and> n \<le> 57 then Some (of_nat (n - 48))
      else if 97 \<le> n \<and> n \<le> 102 then Some (of_nat (n - 97 + 10))
      else if 65 \<le> n \<and> n \<le> 70 then Some (of_nat (n - 65 + 10))
      else None)"

text \<open>
  \<open>hex.DecodeString\<close> fails on a character that is not a hexadecimal digit and on a string
  of odd length. The caller only tests whether it failed, so every error is \<open>None\<close>.
\<close>

fun hex_DecodeString :: "string \<Rightarrow> u8 list option" where
  "hex_DecodeString [] = Some []"
| "hex_DecodeString [c] = None"
| "hex_DecodeString (p # q # s) =
     (case fromHexChar p of
        None \<Rightarrow> None
      | Some a \<Rightarrow>
          (case fromHexChar q of
             None \<Rightarrow> None
           | Some b \<Rightarrow>
               (case hex_DecodeString s of
                  None \<Rightarrow> None
                | Some bs \<Rightarrow> Some ((push_bit 4 a OR b) # bs))))"

section \<open>The scanner: \<open>extractServiceData16\<close> (ble_ad.go)\<close>

text \<open>The four results of the function: UUID text, frame type, rest, ok.\<close>

type_synonym service_data = "string \<times> u8 \<times> u8 list \<times> bool"

definition notFound :: service_data where
  "notFound = ('''', 0, [], False)"

text \<open>The Go slice expression \<open>b[lo:hi]\<close>, for \<open>lo \<le> hi \<le> len(b)\<close>.\<close>

definition slice_of :: "'a list \<Rightarrow> nat \<Rightarrow> nat \<Rightarrow> 'a list" where
  "slice_of b lo hi = take (hi - lo) (drop lo b)"

text \<open>
  The loop \<open>for i < len(raw)\<close>, with the loop variable \<open>i\<close> as argument. The counter
  \<open>adIdx\<close> and the calls of \<open>log.Printf\<close> only write to the log and are left out.
  Every index read is in range: the reads at \<open>i+2\<close> and \<open>i+3\<close> happen only after
  \<open>i+1+length \<le> len(raw)\<close> and \<open>length \<ge> 4\<close>.
\<close>

function scanFrom :: "u8 list \<Rightarrow> nat \<Rightarrow> service_data" where
  "scanFrom raw i =
     (if i < length raw then
        if i + 1 \<ge> length raw then notFound
        else
          let len = unat (raw ! i) in
          if len = 0 \<or> i + 1 + len > length raw then notFound
          else
            let typ = raw ! (i + 1) in
            if typ = 0x16 then
              if len < 4 then notFound
              else
                let lsb = raw ! (i + 2);
                    msb = raw ! (i + 3);
                    uuidText = strings_ToUpper (fmt_02X msb @ fmt_02X lsb);
                    data = slice_of raw (i + 4) (i + 1 + len)
                in
                  if length data = 0 then (uuidText, 0, [], True)
                  else (uuidText, hd data, (if length data > 1 then tl data else []), True)
            else scanFrom raw (i + 1 + len)
      else notFound)"
  by pat_completeness auto
termination
  by (relation "measure (\<lambda>(raw, i). length raw - i)") auto

declare scanFrom.simps [simp del]

definition extractServiceData16 :: "string \<Rightarrow> service_data" where
  "extractServiceData16 payloadHex =
     (case hex_DecodeString (strings_TrimSpace payloadHex) of
        None \<Rightarrow> notFound
      | Some raw \<Rightarrow> if length raw = 0 then notFound else scanFrom raw 0)"

section \<open>The decoders (decoders/moko_h4pro.go)\<close>

text \<open>
  \<open>u16be\<close> and \<open>i16be\<close> take the cursor by pointer and advance it; here they take the
  cursor and return the value, the flag and the new cursor. The Go \<open>int\<close> has 64 bits, so
  the shift and the disjunction of two bytes in \<open>u16be\<close> are those of the integers; in
  \<open>i16be\<close> they are those of \<open>int16\<close>, and the conversion to \<open>int\<close> extends the sign.
\<close>

definition u16be :: "u8 list \<Rightarrow> nat \<Rightarrow> int \<times> bool \<times> nat" where
  "u16be b off =
     (if length b < off + 2 then (0, False, off)
      else (push_bit 8 (uint (b ! off)) OR uint (b ! (off + 1)), True, off + 2))"

definition i16be :: "u8 list \<Rightarrow> nat \<Rightarrow> int \<times> bool \<times> nat" where
  "i16be b off =
     (if length b < off + 2 then (0, False, off)
      else (sint (push_bit 8 (ucast (b ! off) :: 16 word) OR ucast (b ! (off + 1))), True, off + 2))"

text \<open>
  \<open>buildTH\<close>, statement by statement; \<open>out\<close> and \<open>off\<close> are rebound where the code
  assigns to them. The hex text of the embedded MAC is computed and dropped, and the cursor
  arithmetic of the last two statements has no reader; the calls of \<open>log.Printf\<close> are left
  out.
\<close>

definition buildTH :: "int \<Rightarrow> string \<Rightarrow> string \<Rightarrow> int option \<Rightarrow> u8 list \<Rightarrow> decoded" where
  "buildTH ts mac deviceName rssi p =
     (let out = [''message_type'' \<mapsto> VString ''h4pro-t&h'',
                 ''timestamp'' \<mapsto> VInt64 ts,
                 ''mac'' \<mapsto> VString (strings_ToUpper mac),
                 ''device_name'' \<mapsto> VString deviceName];
          out = (case rssi of None \<Rightarrow> out | Some r \<Rightarrow> out(''rssi'' \<mapsto> VInt r));
          off = 0;
          off = (if length p \<ge> off + 1 then off + 1 else off);
          (out, off) =
            (if length p \<ge> off + 1 then
               let steps = uint (p ! off) in
               (out(''adv_interval_steps'' \<mapsto> VInt steps,
                    ''adv_interval_ms'' \<mapsto> VInt (steps * 100)), off + 1)
             else (out, off));
          (v, ok, off) = i16be p off;
          out = (if ok then out(''temperature'' \<mapsto> VFloat64 (of_int v / 10)) else out);
          (v, ok, off) = u16be p off;
          out = (if ok then out(''humidity'' \<mapsto> VFloat64 (of_int v / 10)) else out);
          (v, ok, off) = u16be p off;
          out = (if ok then out(''batt_vol'' \<mapsto> VInt v) else out);
          (out, off) =
            (if length p \<ge> off + 1 then (out(''device_type'' \<mapsto> VInt (uint (p ! off))), off + 1)
             else (out, off));
          off = (if int (length p) - int off > 0 then off + 6 else off)
      in (Some out, None))"

definition buildInfo :: "int \<Rightarrow> string \<Rightarrow> string \<Rightarrow> int option \<Rightarrow> u8 list \<Rightarrow> decoded" where
  "buildInfo ts mac deviceName rssi p =
     (let out = [''message_type'' \<mapsto> VString ''h4pro-info'',
                 ''timestamp'' \<mapsto> VInt64 ts,
                 ''mac'' \<mapsto> VString (strings_ToUpper mac),
                 ''device_name'' \<mapsto> VString deviceName];
          out = (case rssi of None \<Rightarrow> out | Some r \<Rightarrow> out(''rssi'' \<mapsto> VInt r));
          off = 0;
          off = (if length p \<ge> off + 1 then off + 1 else off);
          (out, off) =
            (if length p \<ge> off + 1 then
               let steps = uint (p ! off) in
               (out(''adv_interval_steps'' \<mapsto> VInt steps,
                    ''adv_interval_ms'' \<mapsto> VInt (steps * 100)), off + 1)
             else (out, off));
          (v, ok, off) = u16be p off;
          out = (if ok then out(''batt_vol'' \<mapsto> VInt v) else out);
          (out, off) =
            (if length p \<ge> off + 1 then
               let val = uint (p ! off) in
               (out(''device_prop'' \<mapsto> VInt val,
                    ''device_prop_bits'' \<mapsto> VString (fmt_08b val)), off + 1)
             else (out, off));
          (out, off) =
            (if length p \<ge> off + 1 then
               let val = uint (p ! off) in
               (out(''switch_status'' \<mapsto> VInt val,
                    ''switch_status_bits'' \<mapsto> VString (fmt_08b val)), off + 1)
             else (out, off));
          off = (if length p \<ge> off + 6 then off + 6 else off);
          (v, ok, off) = u16be p off;
          out = (if ok then out(''firmware_ver'' \<mapsto> VString (''V0.0.'' @ fmt_d v)) else out)
      in (Some out, None))"

text \<open>The dispatch on the frame type; the error is the text of \<open>fmt.Errorf\<close>.\<close>

definition ParseH4ProToOutput ::
  "u8 \<Rightarrow> u8 list \<Rightarrow> int \<Rightarrow> string \<Rightarrow> string \<Rightarrow> int option \<Rightarrow> decoded" where
  "ParseH4ProToOutput frameType p ts mac deviceName rssi =
     (if frameType = 0x70 then buildTH ts mac deviceName rssi p
      else if frameType = 0x40 then buildInfo ts mac deviceName rssi p
      else (None, Some (''unknown H4 Pro frame_type 0x'' @ fmt_02X frameType)))"

section \<open>Notions the statements use\<close>

text \<open>The value stored under a key of the returned map; \<open>None\<close> when the key is absent
  (or when no map is returned).\<close>

definition field :: "decoded \<Rightarrow> string \<Rightarrow> val option" where
  "field r k = (case fst r of None \<Rightarrow> None | Some out \<Rightarrow> out k)"

text \<open>A call succeeds when it returns a map and a nil error.\<close>

definition succeeded :: "decoded \<Rightarrow> bool" where
  "succeeded r = (fst r \<noteq> None \<and> snd r = None)"

text \<open>The envelope that both decoders start from.\<close>

definition envelope :: "string \<Rightarrow> int \<Rightarrow> string \<Rightarrow> string \<Rightarrow> int option \<Rightarrow> outmap" where
  "envelope kind ts mac dn rssi =
     [''message_type'' \<mapsto> VString kind, ''timestamp'' \<mapsto> VInt64 ts,
      ''mac'' \<mapsto> VString (strings_ToUpper mac), ''device_name'' \<mapsto> VString dn]
     ++ (case rssi of None \<Rightarrow> Map.empty | Some r \<Rightarrow> [''rssi'' \<mapsto> VInt r])"

text \<open>The 16-bit big-endian value of two bytes, unsigned and in two's complement.\<close>

definition be_u16 :: "u8 \<Rightarrow> u8 \<Rightarrow> int" where
  "be_u16 hi lo = 256 * uint hi + uint lo"

definition be_i16 :: "u8 \<Rightarrow> u8 \<Rightarrow> int" where
  "be_i16 hi lo = (if be_u16 hi lo < 32768 then be_u16 hi lo else be_u16 hi lo - 65536)"

text \<open>The number a string of decimal digits denotes.\<close>

definition digitsValue :: "string \<Rightarrow> nat" where
  "digitsValue ds = foldl (\<lambda>a c. 10 * a + (of_char c - 48)) 0 ds"

text \<open>
  An AD structure is a type byte and its data; on the wire a length byte comes first, which
  counts the type byte and the data, so the data has at most 254 bytes. A payload is the
  concatenation of the encoded structures.
\<close>

type_synonym ad_structure = "u8 \<times> u8 list"

definition wellformedAd :: "ad_structure \<Rightarrow> bool" where
  "wellformedAd s = (length (snd s) < 255)"

definition encodeAd :: "ad_structure \<Rightarrow> u8 list" where
  "encodeAd s = of_nat (1 + length (snd s)) # fst s # snd s"

definition encodeAds :: "ad_structure list \<Rightarrow> u8 list" where
  "encodeAds ads = concat (map encodeAd ads)"

text \<open>Structures that fit their length byte and are not of type \<open>0x16\<close>.\<close>

definition otherAds :: "ad_structure list \<Rightarrow> bool" where
  "otherAds ads = list_all (\<lambda>s. wellformedAd s \<and> fst s \<noteq> 0x16) ads"

text \<open>
  What is left of a payload starts with a malformed structure when its length byte is 0 or
  announces more bytes than are left.
\<close>

definition malformedTail :: "u8 list \<Rightarrow> bool" where
  "malformedTail rem = (rem \<noteq> [] \<and> (hd rem = 0 \<or> length rem < 1 + unat (hd rem)))"

section \<open>Sixteen-bit values\<close>

lemma uint_byte_range: "0 \<le> uint (a::8 word) \<and> uint a < 256"
  using uint_bounded [of a] by simp

lemma u16_value: "push_bit 8 (uint (a::8 word)) OR uint (b::8 word) = 256 * uint a + uint b"
proof -
  have tb: "take_bit 8 (uint b) = uint b"
    using uint_byte_range [of b] by (simp add: take_bit_int_eq_self)
  have "push_bit 8 (uint a) OR uint b = concat_bit 8 (uint b) (uint a)"
    by (simp add: concat_bit_def tb or.commute)
  also have "\<dots> = take_bit 8 (uint b) + push_bit 8 (uint a)"
    by (rule concat_bit_eq)
  also have "\<dots> = 256 * uint a + uint b"
    by (simp add: push_bit_eq_mult tb)
  finally show ?thesis .
qed

lemma uint_cat16:
  "uint (push_bit 8 (ucast (a::8 word) :: 16 word) OR ucast (b::8 word)) = 256 * uint a + uint b"
proof -
  have ua: "uint (ucast a :: 16 word) = uint a" and ub: "uint (ucast b :: 16 word) = uint b"
    by (simp_all add: uint_up_ucast is_up)
  have "256 * uint a < 65536" "0 \<le> 256 * uint a"
    using uint_byte_range [of a] by simp_all
  then have "take_bit 16 (push_bit 8 (uint a)) = push_bit 8 (uint a)"
    by (simp add: take_bit_int_eq_self push_bit_eq_mult)
  then have "uint (push_bit 8 (ucast a :: 16 word)) = push_bit 8 (uint a)"
    by (simp add: unsigned_push_bit_eq ua)
  then show ?thesis
    by (simp add: uint_or ub u16_value)
qed

lemma i16_value:
  "sint (push_bit 8 (ucast (a::8 word) :: 16 word) OR ucast (b::8 word)) =
     (if 32768 \<le> 256 * uint a + uint b then 256 * uint a + uint b - 65536 else 256 * uint a + uint b)"
proof -
  let ?u = "256 * uint a + uint b"
  have r: "0 \<le> ?u" "?u < 65536"
    using uint_byte_range [of a] uint_byte_range [of b] by linarith+
  have "sint (push_bit 8 (ucast a :: 16 word) OR ucast b) = signed_take_bit 15 ?u"
    by (simp add: sint_uint uint_cat16)
  also have "\<dots> = take_bit 16 (?u + 32768) - 32768"
    by (simp add: signed_take_bit_eq_take_bit_shift)
  also have "\<dots> = (?u + 32768) mod 65536 - 32768"
    by (simp add: take_bit_eq_mod)
  also have "\<dots> = (if 32768 \<le> ?u then ?u - 65536 else ?u)"
  proof (cases "32768 \<le> ?u")
    case True
    then have "(?u + 32768) mod 65536 = ?u + 32768 - 65536"
      using r by (simp add: mod_pos_geq)
    with True show ?thesis by simp
  next
    case False
    then have "(?u + 32768) mod 65536 = ?u + 32768"
      using r by simp
    with False show ?thesis by simp
  qed
  finally show ?thesis .
qed

lemma be_u16_nonneg: "0 \<le> be_u16 hi lo"
  using uint_byte_range [of hi] uint_byte_range [of lo] by (simp add: be_u16_def)

lemma u16be_ok:
  "off + 2 \<le> length b \<Longrightarrow> u16be b off = (be_u16 (b ! off) (b ! (off + 1)), True, off + 2)"
  by (simp add: u16be_def be_u16_def u16_value)

lemma u16be_short: "length b < off + 2 \<Longrightarrow> u16be b off = (0, False, off)"
  by (simp add: u16be_def)

lemma i16be_ok:
  "off + 2 \<le> length b \<Longrightarrow> i16be b off = (be_i16 (b ! off) (b ! (off + 1)), True, off + 2)"
  by (simp add: i16be_def be_i16_def be_u16_def i16_value)

lemma i16be_short: "length b < off + 2 \<Longrightarrow> i16be b off = (0, False, off)"
  by (simp add: i16be_def)

lemma fmt_d_be_u16: "fmt_d (be_u16 hi lo) = decimal (nat (be_u16 hi lo))"
  using be_u16_nonneg [of hi lo] by (simp add: fmt_d_def)

section \<open>The decimal rendering\<close>

lemma decDigit_value: "n < 10 \<Longrightarrow> of_char (decDigit n) - 48 = n"
proof -
  have "\<forall>k<10. (of_char (''0123456789'' ! k) :: nat) - 48 = k"
    by code_simp
  then show "n < 10 \<Longrightarrow> of_char (decDigit n) - 48 = n"
    by (simp add: decDigit_def)
qed

lemma decDigit_nonzero: "0 < n \<Longrightarrow> n < 10 \<Longrightarrow> decDigit n \<noteq> CHR ''0''"
proof -
  have "\<forall>k<10. 0 < k \<longrightarrow> ''0123456789'' ! k \<noteq> CHR ''0''"
    by code_simp
  then show "0 < n \<Longrightarrow> n < 10 \<Longrightarrow> decDigit n \<noteq> CHR ''0''"
    by (simp add: decDigit_def)
qed

lemma digitsValue_snoc: "digitsValue (ds @ [c]) = 10 * digitsValue ds + (of_char c - 48)"
  by (simp add: digitsValue_def)

text \<open>The digits denote the number.\<close>

lemma decimal_value: "digitsValue (decimal n) = n"
proof (induction n rule: decimal.induct)
  case (1 n)
  show ?case
  proof (cases "n < 10")
    case True
    then show ?thesis
      using digitsValue_snoc [of "[]" "decDigit n"]
      by (simp add: decimal.simps [of n] decDigit_value digitsValue_def)
  next
    case False
    then have "digitsValue (decimal (n div 10)) = n div 10"
      using "1.IH" by simp
    moreover have "of_char (decDigit (n mod 10)) - 48 = n mod 10"
      by (rule decDigit_value) simp
    ultimately show ?thesis
      using False by (simp add: decimal.simps [of n] digitsValue_snoc)
  qed
qed

lemma decimal_nonempty: "decimal n \<noteq> []"
  by (subst decimal.simps) simp

text \<open>No padding: only the number 0 is written with a leading zero.\<close>

lemma decimal_no_padding: "0 < n \<Longrightarrow> hd (decimal n) \<noteq> CHR ''0''"
proof (induction n rule: decimal.induct)
  case (1 n)
  show ?case
  proof (cases "n < 10")
    case True
    with "1.prems" show ?thesis
      by (simp add: decimal.simps [of n] decDigit_nonzero)
  next
    case False
    then have "0 < n div 10" by simp
    with False "1.IH" have "hd (decimal (n div 10)) \<noteq> CHR ''0''" by simp
    then show ?thesis
      using False decimal_nonempty [of "n div 10"] by (simp add: decimal.simps [of n])
  qed
qed

section \<open>The decoders on payloads of a given length\<close>











lemma buildTH_len4:
  assumes "length p = 4"
  shows "buildTH ts mac dn rssi p =
    (Some ((envelope ''h4pro-t&h'' ts mac dn rssi)
          (''adv_interval_steps'' \<mapsto> VInt (uint (p ! 1)),
           ''adv_interval_ms'' \<mapsto> VInt (uint (p ! 1) * 100),
           ''temperature'' \<mapsto> VFloat64 (of_int (be_i16 (p ! 2) (p ! 3)) / 10))), None)"
  using assms
  by (simp add: buildTH_def envelope_def i16be_ok u16be_short Let_def eval_nat_numeral
        split: option.split)

lemma buildTH_len9:
  assumes "9 \<le> length p"
  shows "buildTH ts mac dn rssi p =
    (Some ((envelope ''h4pro-t&h'' ts mac dn rssi)
          (''adv_interval_steps'' \<mapsto> VInt (uint (p ! 1)),
           ''adv_interval_ms'' \<mapsto> VInt (uint (p ! 1) * 100),
           ''temperature'' \<mapsto> VFloat64 (of_int (be_i16 (p ! 2) (p ! 3)) / 10),
           ''humidity'' \<mapsto> VFloat64 (of_int (be_u16 (p ! 4) (p ! 5)) / 10),
           ''batt_vol'' \<mapsto> VInt (be_u16 (p ! 6) (p ! 7)),
           ''device_type'' \<mapsto> VInt (uint (p ! 8)))), None)"
  using assms
  by (simp add: buildTH_def envelope_def i16be_ok u16be_ok Let_def eval_nat_numeral
        split: option.split)

text \<open>Info payloads that are too short for the firmware version, or that end inside it
  after a complete MAC, have no \<open>firmware_ver\<close>.\<close>

lemma buildInfo_firmware_absent:
  assumes "length p < 8 \<or> length p = 12 \<or> length p = 13"
  shows "field (buildInfo ts mac dn rssi p) ''firmware_ver'' = None"
  using assms
  by (auto simp: buildInfo_def field_def u16be_def Let_def eval_nat_numeral
        split: option.split)

lemma take_nth_eq: "take n p = take n q \<Longrightarrow> i < n \<Longrightarrow> p ! i = q ! i"
  by (metis nth_take)

section \<open>The walk of the scanner over AD structures\<close>

text \<open>The loop sees only what lies from its position on.\<close>

lemma scanFrom_shift: "scanFrom (pre @ raw) (length pre + i) = scanFrom raw i"
proof (induction raw i rule: scanFrom.induct)
  case (1 raw i)
  show ?case
  proof (cases "i < length raw \<and> \<not> length raw \<le> i + 1 \<and>
      \<not> (unat (raw ! i) = 0 \<or> length raw < i + 1 + unat (raw ! i)) \<and> raw ! (i + 1) \<noteq> 0x16")
    case True
    then have ih: "scanFrom (pre @ raw) (length pre + (i + 1 + unat (raw ! i))) =
        scanFrom raw (i + 1 + unat (raw ! i))"
      using "1.IH" [OF _ _ refl _ refl] by simp
    show ?thesis
      using True ih
      by (subst scanFrom.simps, subst (2) scanFrom.simps)
         (simp add: nth_append Let_def add.assoc)
  next
    case False
    then show ?thesis
      by (subst scanFrom.simps, subst (2) scanFrom.simps)
         (auto simp: nth_append Let_def slice_of_def add.assoc)
  qed
qed

lemma scanFrom_stop: "rem = [] \<or> malformedTail rem \<Longrightarrow> scanFrom rem 0 = notFound"
  by (subst scanFrom.simps) (auto simp: malformedTail_def Let_def hd_conv_nth unat_eq_0)

lemma unat_ad_length:
  "wellformedAd s \<Longrightarrow> unat (of_nat (1 + length (snd s)) :: u8) = 1 + length (snd s)"
  using unat_of_nat [where 'a = 8, of "1 + length (snd s)"] by (simp add: wellformedAd_def)

lemma scanFrom_skip:
  assumes "wellformedAd s" "fst s \<noteq> 0x16"
  shows "scanFrom (encodeAd s @ rest) 0 = scanFrom rest 0"
proof -
  have "scanFrom (encodeAd s @ rest) 0 = scanFrom (encodeAd s @ rest) (length (encodeAd s) + 0)"
    using assms unat_ad_length [OF assms(1)]
    by (subst scanFrom.simps) (simp add: encodeAd_def Let_def)
  then show ?thesis by (simp only: scanFrom_shift)
qed

lemma scanFrom_skip_all: "otherAds ads \<Longrightarrow> scanFrom (encodeAds ads @ rest) 0 = scanFrom rest 0"
  by (induction ads) (simp_all add: encodeAds_def otherAds_def scanFrom_skip)

lemma toUpper_fmt_02X: "strings_ToUpper (fmt_02X b) = fmt_02X b"
proof -
  have "\<forall>k<16. toUpperByte (''0123456789ABCDEF'' ! k) = ''0123456789ABCDEF'' ! k"
    by code_simp
  then have "toUpperByte (hexDigitUpper n) = hexDigitUpper n" for n
    by (simp add: hexDigitUpper_def)
  then show ?thesis by (simp add: strings_ToUpper_def fmt_02X_def)
qed

lemma toUpper_uuid: "strings_ToUpper (fmt_02X a @ fmt_02X b) = fmt_02X a @ fmt_02X b"
  using toUpper_fmt_02X [of a] toUpper_fmt_02X [of b] by (simp add: strings_ToUpper_def)

lemma scanFrom_service:
  assumes "length body < 253" "body \<noteq> []"
  shows "scanFrom (encodeAd (0x16, lsb # msb # body) @ rest) 0 =
           (fmt_02X msb @ fmt_02X lsb, hd body, tl body, True)"
proof -
  have u: "unat (of_nat (1 + length (lsb # msb # body)) :: u8) = 3 + length body"
    using assms unat_of_nat [where 'a = 8, of "1 + length (lsb # msb # body)"] by simp
  obtain b bs where body: "body = b # bs"
    using assms(2) by (cases body) auto
  show ?thesis
    using assms u
    by (subst scanFrom.simps)
       (auto simp: encodeAd_def Let_def slice_of_def toUpper_uuid body)
qed

lemma extract_decoded:
  "hex_DecodeString (strings_TrimSpace payloadHex) = Some raw \<Longrightarrow>
   extractServiceData16 payloadHex = scanFrom raw 0"
  by (cases raw) (simp_all add: extractServiceData16_def scanFrom.simps [of "[]"])

text \<open>The advertisement of the end-to-end scenario of the specification.\<close>

lemma scenario_scan:
  "extractServiceData16 ''0201060916ABFE7005009601F40BB801AABBCCDDEEFF'' =
     (''FEAB'', 0x70, [0x05, 0x00, 0x96, 0x01, 0xF4], True)"
  by code_simp

lemma scenario_decode:
  "buildTH ts mac dn rssi [0x05, 0x00, 0x96, 0x01, 0xF4] =
     (Some ((envelope ''h4pro-t&h'' ts mac dn rssi)
          (''adv_interval_steps'' \<mapsto> VInt 0,
           ''adv_interval_ms'' \<mapsto> VInt 0,
           ''temperature'' \<mapsto> VFloat64 (- 27135 / 10),
           ''device_type'' \<mapsto> VInt 244)), None)"
  by (simp add: buildTH_def envelope_def i16be_ok u16be_short be_i16_def be_u16_def Let_def
        split: option.split)

text \<open>
  The same scenario with the length byte that covers the whole service data (13) and with
  the ranging byte that the decoder expects in front of the interval.
\<close>

lemma scenario_with_ranging_byte:
  "extractServiceData16 ''0201060D16ABFE700005009601F40BB801'' =
     (''FEAB'', 0x70, [0x00, 0x05, 0x00, 0x96, 0x01, 0xF4, 0x0B, 0xB8, 0x01], True) \<and>
   buildTH ts mac dn rssi [0x00, 0x05, 0x00, 0x96, 0x01, 0xF4, 0x0B, 0xB8, 0x01] =
     (Some ((envelope ''h4pro-t&h'' ts mac dn rssi)
          (''adv_interval_steps'' \<mapsto> VInt 5,
           ''adv_interval_ms'' \<mapsto> VInt 500,
           ''temperature'' \<mapsto> VFloat64 15,
           ''humidity'' \<mapsto> VFloat64 50,
           ''batt_vol'' \<mapsto> VInt 3000,
           ''device_type'' \<mapsto> VInt 1)), None)"
proof -
  have "extractServiceData16 ''0201060D16ABFE700005009601F40BB801'' =
     (''FEAB'', 0x70, [0x00, 0x05, 0x00, 0x96, 0x01, 0xF4, 0x0B, 0xB8, 0x01], True)"
    by code_simp
  then show ?thesis
    by (simp add: buildTH_len9 be_i16_def be_u16_def)
qed

text \<open>A structure of type \<open>0x16\<close> with fewer than two UUID bytes and one byte of body is
  rejected, and the walk ends there.\<close>

lemma scanFrom_service_short:
  assumes "length d < 3"
  shows "scanFrom (encodeAd (0x16, d) @ rest) 0 = notFound"
proof -
  have u: "unat (of_nat (1 + length d) :: u8) = 1 + length d"
    using assms unat_of_nat [where 'a = 8, of "1 + length d"] by simp
  show ?thesis
    using assms u
    by (subst scanFrom.simps) (simp add: encodeAd_def Let_def)
qed

text \<open>
  Every payload is a sequence of well-formed structures of other types, followed by nothing,
  by a malformed structure, or by a well-formed structure of type \<open>0x16\<close>: the three cases
  that the statements below distinguish are all there is.
\<close>

lemma ad_walk_cases:
  "\<exists>ads rem. raw = encodeAds ads @ rem \<and> otherAds ads \<and>
     (rem = [] \<or> malformedTail rem \<or>
      (\<exists>d rest. wellformedAd (0x16, d) \<and> rem = encodeAd (0x16, d) @ rest))"
proof (induction raw rule: length_induct)
  case (1 raw)
  show ?case
  proof (cases "raw = [] \<or> malformedTail raw")
    case True
    then have "raw = encodeAds [] @ raw \<and> otherAds [] \<and> (raw = [] \<or> malformedTail raw)"
      by (simp add: encodeAds_def otherAds_def)
    then show ?thesis by blast
  next
    case False
    then have ne: "raw \<noteq> []" and nz: "hd raw \<noteq> 0" and fit: "1 + unat (hd raw) \<le> length raw"
      by (auto simp: malformedTail_def)
    have pos: "0 < unat (hd raw)"
      using nz by (simp add: unat_gt_0)
    then have "2 \<le> length raw"
      using fit by simp
    then obtain a b xs where raw: "raw = a # b # xs"
      by (cases raw; cases "tl raw") auto
    define d where "d = take (unat a - 1) xs"
    define rest where "rest = drop (unat a - 1) xs"
    have len_d: "length d = unat a - 1"
      using fit by (simp add: d_def raw)
    have "unat a < 256"
      using unsigned_less [of a, where 'a = nat] by simp
    then have wf: "wellformedAd (b, d)"
      by (simp add: wellformedAd_def len_d)
    have e: "1 + length d = unat a"
      using pos by (simp add: len_d raw)
    have "(of_nat (1 + length d) :: u8) = a"
      by (simp only: e of_nat_unat ucast_id)
    then have enc: "raw = encodeAd (b, d) @ rest"
      by (simp add: encodeAd_def raw d_def rest_def)
    show ?thesis
    proof (cases "b = 0x16")
      case True
      with wf enc have "raw = encodeAds [] @ raw \<and> otherAds [] \<and>
          (\<exists>d rest. wellformedAd (0x16, d) \<and> raw = encodeAd (0x16, d) @ rest)"
        by (auto simp: encodeAds_def otherAds_def wellformedAd_def)
      then show ?thesis by blast
    next
      case False
      have "length rest < length raw"
        by (simp add: rest_def raw)
      with "1.IH" obtain ads rem where
        r: "rest = encodeAds ads @ rem" and o: "otherAds ads" and
        c: "rem = [] \<or> malformedTail rem \<or>
            (\<exists>d rest. wellformedAd (0x16, d) \<and> rem = encodeAd (0x16, d) @ rest)"
        by blast
      have "raw = encodeAds ((b, d) # ads) @ rem"
        by (simp add: enc r encodeAds_def)
      moreover have "otherAds ((b, d) # ads)"
        using wf False o by (simp add: otherAds_def)
      ultimately show ?thesis
        using c by blast
    qed
  qed
qed

section \<open>The claims about the scanner\<close>

text \<open>
  C1, as the specification states it: for the advertisement
  \<open>0201060916ABFE7005009601F40BB801AABBCCDDEEFF\<close> the scanner returns ok, the UUID text
  \<open>FEAB\<close>, the frame type \<open>0x70\<close> and the remaining service data, and the Temperature
  and Humidity decoder on those bytes gives 5 interval steps, 500 ms, temperature 15.0,
  humidity 50.0, battery 3000 and device type 1. This does not hold: the structure of type
  \<open>0x16\<close> announces 9 bytes, so the service data after the frame type is
  \<open>05 00 96 01 F4\<close>, and the decoder takes \<open>05\<close> for the ranging indicator.
\<close>

theorem C1_scenario_counterexample:
  "\<not> (extractServiceData16 ''0201060916ABFE7005009601F40BB801AABBCCDDEEFF'' =
        (''FEAB'', 0x70,
         fst (snd (snd (extractServiceData16 ''0201060916ABFE7005009601F40BB801AABBCCDDEEFF''))),
         True) \<and>
      field (buildTH 0 [] [] None
        (fst (snd (snd (extractServiceData16 ''0201060916ABFE7005009601F40BB801AABBCCDDEEFF'')))))
        ''message_type'' = Some (VString ''h4pro-t&h'') \<and>
      field (buildTH 0 [] [] None
        (fst (snd (snd (extractServiceData16 ''0201060916ABFE7005009601F40BB801AABBCCDDEEFF'')))))
        ''adv_interval_steps'' = Some (VInt 5) \<and>
      field (buildTH 0 [] [] None
        (fst (snd (snd (extractServiceData16 ''0201060916ABFE7005009601F40BB801AABBCCDDEEFF'')))))
        ''adv_interval_ms'' = Some (VInt 500) \<and>
      field (buildTH 0 [] [] None
        (fst (snd (snd (extractServiceData16 ''0201060916ABFE7005009601F40BB801AABBCCDDEEFF'')))))
        ''temperature'' = Some (VFloat64 15) \<and>
      field (buildTH 0 [] [] None
        (fst (snd (snd (extractServiceData16 ''0201060916ABFE7005009601F40BB801AABBCCDDEEFF'')))))
        ''humidity'' = Some (VFloat64 50) \<and>
      field (buildTH 0 [] [] None
        (fst (snd (snd (extractServiceData16 ''0201060916ABFE7005009601F40BB801AABBCCDDEEFF'')))))
        ''batt_vol'' = Some (VInt 3000) \<and>
      field (buildTH 0 [] [] None
        (fst (snd (snd (extractServiceData16 ''0201060916ABFE7005009601F40BB801AABBCCDDEEFF'')))))
        ''device_type'' = Some (VInt 1))"
  by (simp add: scenario_scan scenario_decode field_def)

text \<open>
  C1, amended: for that advertisement the scanner returns ok, the UUID text \<open>FEAB\<close>, the
  frame type \<open>0x70\<close> and the five bytes \<open>05 00 96 01 F4\<close>; the Temperature and Humidity
  decoder on those bytes succeeds with message type \<open>h4pro-t&h\<close>, 0 interval steps, 0 ms,
  temperature -2713.5 and device type 244, and with neither humidity nor battery voltage.
\<close>

theorem C1_scenario:
  "extractServiceData16 ''0201060916ABFE7005009601F40BB801AABBCCDDEEFF'' =
     (''FEAB'', 0x70, [0x05, 0x00, 0x96, 0x01, 0xF4], True) \<and>
   succeeded (buildTH ts mac dn rssi
     (fst (snd (snd (extractServiceData16 ''0201060916ABFE7005009601F40BB801AABBCCDDEEFF''))))) \<and>
   field (buildTH ts mac dn rssi
     (fst (snd (snd (extractServiceData16 ''0201060916ABFE7005009601F40BB801AABBCCDDEEFF'')))))
     ''message_type'' = Some (VString ''h4pro-t&h'') \<and>
   field (buildTH ts mac dn rssi
     (fst (snd (snd (extractServiceData16 ''0201060916ABFE7005009601F40BB801AABBCCDDEEFF'')))))
     ''adv_interval_steps'' = Some (VInt 0) \<and>
   field (buildTH ts mac dn rssi
     (fst (snd (snd (extractServiceData16 ''0201060916ABFE7005009601F40BB801AABBCCDDEEFF'')))))
     ''adv_interval_ms'' = Some (VInt 0) \<and>
   field (buildTH ts mac dn rssi
     (fst (snd (snd (extractServiceData16 ''0201060916ABFE7005009601F40BB801AABBCCDDEEFF'')))))
     ''temperature'' = Some (VFloat64 (- 27135 / 10)) \<and>
   field (buildTH ts mac dn rssi
     (fst (snd (snd (extractServiceData16 ''0201060916ABFE7005009601F40BB801AABBCCDDEEFF'')))))
     ''humidity'' = None \<and>
   field (buildTH ts mac dn rssi
     (fst (snd (snd (extractServiceData16 ''0201060916ABFE7005009601F40BB801AABBCCDDEEFF'')))))
     ''batt_vol'' = None \<and>
   field (buildTH ts mac dn rssi
     (fst (snd (snd (extractServiceData16 ''0201060916ABFE7005009601F40BB801AABBCCDDEEFF'')))))
     ''device_type'' = Some (VInt 244)"
  by (simp add: scenario_scan scenario_decode field_def succeeded_def envelope_def
        split: option.split)

text \<open>
  C2. A payload is a sequence of well-formed structures of other types followed by a rest.
  When the rest is empty (the walk exhausts the payload without meeting type \<open>0x16\<close>) or
  starts with a malformed structure (length byte 0, or more bytes announced than are left),
  the scanner reports not-found: no UUID, frame type 0, no bytes, ok false. None of the
  structures before the break is matched, whatever they hold.
  (By \<open>ad_walk_cases\<close> every payload is of this form or reaches a well-formed structure of
  type \<open>0x16\<close>.)
\<close>

theorem C2_not_found:
  assumes "otherAds ads"
    and "rem = [] \<or> malformedTail rem"
    and "hex_DecodeString (strings_TrimSpace payloadHex) = Some (encodeAds ads @ rem)"
  shows "extractServiceData16 payloadHex = ('''', 0, [], False)"
proof -
  have "extractServiceData16 payloadHex = scanFrom (encodeAds ads @ rem) 0"
    using assms(3) by (rule extract_decoded)
  also have "\<dots> = scanFrom rem 0"
    using assms(1) by (rule scanFrom_skip_all)
  also have "\<dots> = notFound"
    using assms(2) by (rule scanFrom_stop)
  finally show ?thesis by (simp add: notFound_def)
qed

theorem C2_not_found_witness:
  "otherAds [(0x01, [0x06]), (0x09, [0x48, 0x34])] \<and>
   malformedTail [0x05, 0x16, 0xAB] \<and>
   hex_DecodeString (strings_TrimSpace ''020106030948340516AB'') =
     Some (encodeAds [(0x01, [0x06]), (0x09, [0x48, 0x34])] @ [0x05, 0x16, 0xAB]) \<and>
   extractServiceData16 ''020106030948340516AB'' = ('''', 0, [], False) \<and>
   hex_DecodeString (strings_TrimSpace ''02010603094834'') =
     Some (encodeAds [(0x01, [0x06]), (0x09, [0x48, 0x34])] @ []) \<and>
   extractServiceData16 ''02010603094834'' = ('''', 0, [], False)"
proof -
  have a: "otherAds [(0x01, [0x06]), (0x09, [0x48, 0x34])]"
    by (simp add: otherAds_def wellformedAd_def)
  have m: "malformedTail [0x05, 0x16, 0xAB]"
    by (simp add: malformedTail_def)
  have d1: "hex_DecodeString (strings_TrimSpace ''020106030948340516AB'') =
     Some (encodeAds [(0x01, [0x06]), (0x09, [0x48, 0x34])] @ [0x05, 0x16, 0xAB])"
    by code_simp
  have d2: "hex_DecodeString (strings_TrimSpace ''02010603094834'') =
     Some (encodeAds [(0x01, [0x06]), (0x09, [0x48, 0x34])] @ [])"
    by code_simp
  have e: "([] :: u8 list) = [] \<or> malformedTail []"
    by simp
  show ?thesis
    using a m d1 d2 C2_not_found [OF a disjI2 [OF m] d1] C2_not_found [OF a e d2]
    by simp
qed

text \<open>
  C3. When the first structure of type \<open>0x16\<close> has a length of at least 4 (two UUID bytes
  and a non-empty body) and fits the payload, the UUID text is the two hexadecimal digits of
  the second UUID byte (offset + 3) followed by those of the first (offset + 2), in upper
  case, where offset is the position of the structure. The result also has the first byte
  of the body as frame type and the bytes after it as rest. The wire bytes \<open>AB FE\<close> give
  \<open>FEAB\<close> (see the witness).
\<close>

theorem C3_uuid_text:
  assumes "otherAds ads"
    and "body \<noteq> []" and "length body < 253"
    and "raw = encodeAds ads @ encodeAd (0x16, lsb # msb # body) @ rest"
    and "hex_DecodeString (strings_TrimSpace payloadHex) = Some raw"
  shows "extractServiceData16 payloadHex = (fmt_02X msb @ fmt_02X lsb, hd body, tl body, True) \<and>
         raw ! (length (encodeAds ads) + 3) = msb \<and>
         raw ! (length (encodeAds ads) + 2) = lsb"
proof -
  have "extractServiceData16 payloadHex = scanFrom raw 0"
    using assms(5) by (rule extract_decoded)
  also have "\<dots> = scanFrom (encodeAd (0x16, lsb # msb # body) @ rest) 0"
    unfolding assms(4) using assms(1) by (rule scanFrom_skip_all)
  also have "\<dots> = (fmt_02X msb @ fmt_02X lsb, hd body, tl body, True)"
    using assms(3) assms(2) by (rule scanFrom_service)
  finally have r: "extractServiceData16 payloadHex =
      (fmt_02X msb @ fmt_02X lsb, hd body, tl body, True)" .
  have "raw ! (length (encodeAds ads) + 3) = msb" "raw ! (length (encodeAds ads) + 2) = lsb"
    by (simp_all add: assms(4) nth_append encodeAd_def)
  with r show ?thesis by simp
qed

theorem C3_uuid_text_witness:
  "otherAds [(0x01, [0x06])] \<and>
   [0x70, 0x05, 0x00, 0x96, 0x01, 0xF4 :: u8] \<noteq> [] \<and>
   length [0x70, 0x05, 0x00, 0x96, 0x01, 0xF4 :: u8] < 253 \<and>
   hex_DecodeString (strings_TrimSpace ''0201060916ABFE7005009601F40BB801AABBCCDDEEFF'') =
     Some (encodeAds [(0x01, [0x06])] @
           encodeAd (0x16, 0xAB # 0xFE # [0x70, 0x05, 0x00, 0x96, 0x01, 0xF4]) @
           [0x0B, 0xB8, 0x01, 0xAA, 0xBB, 0xCC, 0xDD, 0xEE, 0xFF]) \<and>
   extractServiceData16 ''0201060916ABFE7005009601F40BB801AABBCCDDEEFF'' =
     (''FEAB'', 0x70, [0x05, 0x00, 0x96, 0x01, 0xF4], True)"
proof -
  have a: "otherAds [(0x01, [0x06])]"
    by (simp add: otherAds_def wellformedAd_def)
  have b: "[0x70, 0x05, 0x00, 0x96, 0x01, 0xF4 :: u8] \<noteq> []"
    and l: "length [0x70, 0x05, 0x00, 0x96, 0x01, 0xF4 :: u8] < 253"
    by simp_all
  have d: "hex_DecodeString (strings_TrimSpace ''0201060916ABFE7005009601F40BB801AABBCCDDEEFF'') =
     Some (encodeAds [(0x01, [0x06])] @
           encodeAd (0x16, 0xAB # 0xFE # [0x70, 0x05, 0x00, 0x96, 0x01, 0xF4]) @
           [0x0B, 0xB8, 0x01, 0xAA, 0xBB, 0xCC, 0xDD, 0xEE, 0xFF])"
    by code_simp
  have f: "fmt_02X 0xFE @ fmt_02X 0xAB = ''FEAB''"
    by (simp add: fmt_02X_def hexDigitUpper_def)
  show ?thesis
    using a b l d f C3_uuid_text [OF a b l refl d]
    by simp
qed

section \<open>The claims about the decoders\<close>

text \<open>
  C4. For every Temperature and Humidity payload of at least 4 bytes, the temperature is the
  16-bit big-endian two's-complement value of the bytes at offsets 2 and 3, divided by ten.
  The bytes \<open>0x00 0x96\<close> give 15.0 and the bytes \<open>0xFF 0x9C\<close> give -10.0 (see the witness).
\<close>

theorem C4_temperature:
  assumes "4 \<le> length p"
  shows "field (buildTH ts mac dn rssi p) ''temperature'' =
           Some (VFloat64 (of_int (be_i16 (p ! 2) (p ! 3)) / 10))"
  using assms
  by (simp add: buildTH_def field_def i16be_ok u16be_def Let_def eval_nat_numeral
        split: option.split)

theorem C4_temperature_witness:
  "4 \<le> length [0x00, 0x05, 0x00, 0x96 :: u8] \<and>
   field (buildTH 0 [] [] None [0x00, 0x05, 0x00, 0x96]) ''temperature'' = Some (VFloat64 15) \<and>
   4 \<le> length [0x00, 0x05, 0xFF, 0x9C :: u8] \<and>
   field (buildTH 0 [] [] None [0x00, 0x05, 0xFF, 0x9C]) ''temperature'' = Some (VFloat64 (- 10))"
  using C4_temperature [of "[0x00, 0x05, 0x00, 0x96]" 0 "[]" "[]" None]
        C4_temperature [of "[0x00, 0x05, 0xFF, 0x9C]" 0 "[]" "[]" None]
  by (simp add: be_i16_def be_u16_def)

text \<open>
  C5. A Temperature and Humidity payload of exactly 4 bytes (ranging indicator, interval
  steps, two temperature bytes) is decoded without error; the map has the message type, the
  interval in steps and in milliseconds, and the temperature, and has no humidity, battery
  voltage or device type.
\<close>

theorem C5_partial_tail:
  assumes "length p = 4"
  shows "succeeded (buildTH ts mac dn rssi p) \<and>
         field (buildTH ts mac dn rssi p) ''message_type'' = Some (VString ''h4pro-t&h'') \<and>
         field (buildTH ts mac dn rssi p) ''adv_interval_steps'' = Some (VInt (uint (p ! 1))) \<and>
         field (buildTH ts mac dn rssi p) ''adv_interval_ms'' = Some (VInt (uint (p ! 1) * 100)) \<and>
         field (buildTH ts mac dn rssi p) ''temperature'' =
           Some (VFloat64 (of_int (be_i16 (p ! 2) (p ! 3)) / 10)) \<and>
         field (buildTH ts mac dn rssi p) ''humidity'' = None \<and>
         field (buildTH ts mac dn rssi p) ''batt_vol'' = None \<and>
         field (buildTH ts mac dn rssi p) ''device_type'' = None"
  by (simp add: buildTH_len4 [OF assms] succeeded_def field_def envelope_def split: option.split)

theorem C5_partial_tail_witness:
  "length [0x00, 0x05, 0x00, 0x96 :: u8] = 4 \<and>
   succeeded (buildTH 0 [] [] None [0x00, 0x05, 0x00, 0x96]) \<and>
   field (buildTH 0 [] [] None [0x00, 0x05, 0x00, 0x96]) ''message_type'' = Some (VString ''h4pro-t&h'') \<and>
   field (buildTH 0 [] [] None [0x00, 0x05, 0x00, 0x96]) ''adv_interval_steps'' = Some (VInt 5) \<and>
   field (buildTH 0 [] [] None [0x00, 0x05, 0x00, 0x96]) ''adv_interval_ms'' = Some (VInt 500) \<and>
   field (buildTH 0 [] [] None [0x00, 0x05, 0x00, 0x96]) ''temperature'' = Some (VFloat64 15) \<and>
   field (buildTH 0 [] [] None [0x00, 0x05, 0x00, 0x96]) ''humidity'' = None \<and>
   field (buildTH 0 [] [] None [0x00, 0x05, 0x00, 0x96]) ''batt_vol'' = None \<and>
   field (buildTH 0 [] [] None [0x00, 0x05, 0x00, 0x96]) ''device_type'' = None"
  using C5_partial_tail [of "[0x00, 0x05, 0x00, 0x96]" 0 "[]" "[]" None]
  by (simp add: be_i16_def be_u16_def)

text \<open>
  C6. Two Temperature and Humidity payloads of at least 9 bytes that agree on their first 9
  bytes are decoded, with the same timestamp, mac, device name and rssi, to the same result,
  and both calls succeed: the embedded MAC and the bytes after it change nothing.
\<close>

theorem C6_tail_ignored:
  assumes "9 \<le> length p" and "9 \<le> length q" and "take 9 p = take 9 q"
  shows "buildTH ts mac dn rssi p = buildTH ts mac dn rssi q \<and>
         succeeded (buildTH ts mac dn rssi p) \<and> succeeded (buildTH ts mac dn rssi q)"
proof -
  have "p ! i = q ! i" if "i < 9" for i
    using assms(3) that by (rule take_nth_eq)
  then have "p ! 1 = q ! 1" "p ! 2 = q ! 2" "p ! 3 = q ! 3" "p ! 4 = q ! 4" "p ! 5 = q ! 5"
    "p ! 6 = q ! 6" "p ! 7 = q ! 7" "p ! 8 = q ! 8"
    by simp_all
  then have "buildTH ts mac dn rssi p = buildTH ts mac dn rssi q"
    by (simp only: buildTH_len9 [OF assms(1)] buildTH_len9 [OF assms(2)])
  then show ?thesis
    by (simp add: buildTH_len9 [OF assms(2)] succeeded_def)
qed

theorem C6_tail_ignored_witness:
  "9 \<le> length [0x00, 0x05, 0x00, 0x96, 0x01, 0xF4, 0x0B, 0xB8, 0x01 :: u8] \<and>
   9 \<le> length [0x00, 0x05, 0x00, 0x96, 0x01, 0xF4, 0x0B, 0xB8, 0x01, 0xAA, 0xBB, 0xCC, 0xDD, 0xEE, 0xFF, 0x07 :: u8] \<and>
   take 9 [0x00, 0x05, 0x00, 0x96, 0x01, 0xF4, 0x0B, 0xB8, 0x01 :: u8] =
     take 9 [0x00, 0x05, 0x00, 0x96, 0x01, 0xF4, 0x0B, 0xB8, 0x01, 0xAA, 0xBB, 0xCC, 0xDD, 0xEE, 0xFF, 0x07] \<and>
   buildTH 0 [] [] None [0x00, 0x05, 0x00, 0x96, 0x01, 0xF4, 0x0B, 0xB8, 0x01] =
     buildTH 0 [] [] None [0x00, 0x05, 0x00, 0x96, 0x01, 0xF4, 0x0B, 0xB8, 0x01, 0xAA, 0xBB, 0xCC, 0xDD, 0xEE, 0xFF, 0x07] \<and>
   succeeded (buildTH 0 [] [] None [0x00, 0x05, 0x00, 0x96, 0x01, 0xF4, 0x0B, 0xB8, 0x01])"
proof -
  have h: "take 9 [0x00, 0x05, 0x00, 0x96, 0x01, 0xF4, 0x0B, 0xB8, 0x01 :: u8] =
     take 9 [0x00, 0x05, 0x00, 0x96, 0x01, 0xF4, 0x0B, 0xB8, 0x01, 0xAA, 0xBB, 0xCC, 0xDD, 0xEE, 0xFF, 0x07]"
    by simp
  show ?thesis
    using h C6_tail_ignored [OF _ _ h, of 0 "[]" "[]" None] by simp
qed

text \<open>
  C7. For a frame type other than \<open>0x70\<close> and \<open>0x40\<close> the dispatch returns no map and an
  error that names the frame type in two hexadecimal digits, whatever the payload is: the
  result does not depend on the payload, so no byte of it is read.
\<close>

theorem C7_unknown_frame_type:
  assumes "frameType \<noteq> 0x70" and "frameType \<noteq> 0x40"
  shows "ParseH4ProToOutput frameType p ts mac dn rssi =
           (None, Some (''unknown H4 Pro frame_type 0x'' @ fmt_02X frameType)) \<and>
         ParseH4ProToOutput frameType p ts mac dn rssi =
           ParseH4ProToOutput frameType [] ts mac dn rssi"
  using assms by (simp add: ParseH4ProToOutput_def)

theorem C7_unknown_frame_type_witness:
  "(0xFF :: u8) \<noteq> 0x70 \<and> (0xFF :: u8) \<noteq> 0x40 \<and>
   ParseH4ProToOutput 0xFF [0x01, 0x02, 0x03] 0 [] [] None =
     (None, Some ''unknown H4 Pro frame_type 0xFF'')"
  using C7_unknown_frame_type [of "0xFF" "[0x01, 0x02, 0x03]" 0 "[]" "[]" None]
  by (simp add: fmt_02X_def hexDigitUpper_def)

text \<open>
  C8. For every Info payload that reaches the firmware version field (14 bytes: ranging,
  interval, battery, device property, switch status, the 6 bytes of the MAC and the 2 bytes
  of the version), \<open>firmware_ver\<close> is \<open>V0.0.\<close> followed by the decimal digits of the 16-bit
  big-endian unsigned value of the bytes at offsets 12 and 13. The digits denote that value
  and have no padding (\<open>decimal_value\<close>, \<open>decimal_no_padding\<close>); the values 7 and 0 give
  \<open>V0.0.7\<close> and \<open>V0.0.0\<close> (see the witness). Of the shorter payloads, those of 8 to 11
  bytes are the subject of C10 and the others have no \<open>firmware_ver\<close>
  (\<open>buildInfo_firmware_absent\<close>).
\<close>

theorem C8_firmware_ver:
  assumes "14 \<le> length p"
  shows "field (buildInfo ts mac dn rssi p) ''firmware_ver'' =
           Some (VString (''V0.0.'' @ decimal (nat (be_u16 (p ! 12) (p ! 13)))))"
  using assms
  by (simp add: buildInfo_def field_def u16be_ok Let_def fmt_d_be_u16 eval_nat_numeral
        split: option.split)

theorem C8_firmware_ver_witness:
  "14 \<le> length [0x00, 0x05, 0x0B, 0xB8, 0x03, 0x01, 0xAA, 0xBB, 0xCC, 0xDD, 0xEE, 0xFF, 0x00, 0x07 :: u8] \<and>
   field (buildInfo 0 [] [] None [0x00, 0x05, 0x0B, 0xB8, 0x03, 0x01, 0xAA, 0xBB, 0xCC, 0xDD, 0xEE, 0xFF, 0x00, 0x07])
     ''firmware_ver'' = Some (VString ''V0.0.7'') \<and>
   14 \<le> length [0x00, 0x05, 0x0B, 0xB8, 0x03, 0x01, 0xAA, 0xBB, 0xCC, 0xDD, 0xEE, 0xFF, 0x00, 0x00 :: u8] \<and>
   field (buildInfo 0 [] [] None [0x00, 0x05, 0x0B, 0xB8, 0x03, 0x01, 0xAA, 0xBB, 0xCC, 0xDD, 0xEE, 0xFF, 0x00, 0x00])
     ''firmware_ver'' = Some (VString ''V0.0.0'')"
  using C8_firmware_ver [of "[0x00, 0x05, 0x0B, 0xB8, 0x03, 0x01, 0xAA, 0xBB, 0xCC, 0xDD, 0xEE, 0xFF, 0x00, 0x07]" 0 "[]" "[]" None]
        C8_firmware_ver [of "[0x00, 0x05, 0x0B, 0xB8, 0x03, 0x01, 0xAA, 0xBB, 0xCC, 0xDD, 0xEE, 0xFF, 0x00, 0x00]" 0 "[]" "[]" None]
  by (simp add: be_u16_def decimal.simps decDigit_def)


text \<open>
  C10. For every Info payload of 8 to 11 bytes the cursor stays at offset 6 (fewer than 6
  bytes are left for the MAC), and \<open>firmware_ver\<close> is computed from the bytes at offsets 6
  and 7 as a 16-bit big-endian value.
\<close>

theorem C10_short_mac:
  assumes "8 \<le> length p" and "length p \<le> 11"
  shows "field (buildInfo ts mac dn rssi p) ''firmware_ver'' =
           Some (VString (''V0.0.'' @ decimal (nat (be_u16 (p ! 6) (p ! 7)))))"
  using assms
  by (simp add: buildInfo_def field_def u16be_ok Let_def fmt_d_be_u16 eval_nat_numeral
        split: option.split)

theorem C10_short_mac_witness:
  "8 \<le> length [0x00, 0x05, 0x0B, 0xB8, 0x03, 0x01, 0x01, 0x2C, 0xCC :: u8] \<and>
   length [0x00, 0x05, 0x0B, 0xB8, 0x03, 0x01, 0x01, 0x2C, 0xCC :: u8] \<le> 11 \<and>
   field (buildInfo 0 [] [] None [0x00, 0x05, 0x0B, 0xB8, 0x03, 0x01, 0x01, 0x2C, 0xCC])
     ''firmware_ver'' = Some (VString ''V0.0.300'')"
  using C10_short_mac [of "[0x00, 0x05, 0x0B, 0xB8, 0x03, 0x01, 0x01, 0x2C, 0xCC]" 0 "[]" "[]" None]
  by (simp add: be_u16_def decimal.simps decDigit_def)

end
